theory Spec2Isabelle
  imports Main "HOL-Library.Multiset"
begin

section \<open>Python values used by app.py\<close>

text \<open>
  Exceptions raised by the collaborators. All of them are subclasses of Python's
  \<open>Exception\<close>, which is what \<open>maybe_autosync_current_cache\<close> catches.
  \<open>RuntimeError\<close> is raised by \<open>get_graph_token\<close> itself, \<open>RequestException\<close> stands for
  whatever \<open>requests\<close> or \<open>raise_for_status\<close> raise, \<open>OtherException\<close> for what the
  local modules \<open>file_loader\<close> and \<open>qa_engine\<close> or the file system raise.
\<close>

datatype error = RuntimeError string | RequestException string | OtherException string

text \<open>
  Optional strings: \<open>None\<close> is Python's \<open>None\<close> (what \<open>d.get(k)\<close> gives for a
  missing key). \<open>truthy\<close> is the truth value Python's \<open>if\<close>, \<open>not\<close>, \<open>or\<close> and \<open>all\<close> take
  of such a value: \<open>None\<close> and the empty string are false.
\<close>

fun truthy :: "string option \<Rightarrow> bool" where
  "truthy None = False"
| "truthy (Some s) = (s \<noteq> [])"

subsection \<open>Dictionaries\<close>

text \<open>
  A Python \<open>dict\<close> is kept as the list of its items in insertion order. Assigning to a
  key that is present replaces the value where the key stands; a new key goes to the
  end. A dict comprehension assigns the pairs one after the other to an empty dict.
  \<open>dict_eq\<close> is Python's \<open>==\<close> on two dicts: the same number of items, and every item
  of the left one is found under its key in the right one.
\<close>

type_synonym ('k, 'v) dict = "('k \<times> 'v) list"

fun dict_setitem :: "'k \<Rightarrow> 'v \<Rightarrow> ('k, 'v) dict \<Rightarrow> ('k, 'v) dict" where
  "dict_setitem k v [] = [(k, v)]"
| "dict_setitem k v ((k', v') # d) =
     (if k' = k then (k', v) # d else (k', v') # dict_setitem k v d)"

definition dict_comprehension :: "('k \<times> 'v) list \<Rightarrow> ('k, 'v) dict" where
  "dict_comprehension ps = foldl (\<lambda>d (k, v). dict_setitem k v d) [] ps"

definition dict_get :: "('k, 'v) dict \<Rightarrow> 'k \<Rightarrow> 'v option" where
  "dict_get d k = map_of d k"

definition dict_keys :: "('k, 'v) dict \<Rightarrow> 'k list" where
  "dict_keys d = map fst d"

definition dict_eq :: "('k, 'v) dict \<Rightarrow> ('k, 'v) dict \<Rightarrow> bool" where
  "dict_eq a b = (length a = length b \<and> list_all (\<lambda>(k, v). dict_get b k = Some v) a)"

text \<open>Every dict that Python can hold has each key once.\<close>

definition dict_wf :: "('k, 'v) dict \<Rightarrow> bool" where
  "dict_wf d = distinct (dict_keys d)"

text \<open>\<open>x == y\<close> where each side is a dict or \<open>None\<close> (a \<open>.get\<close> of a missing key).\<close>

fun opt_dict_eq :: "('k, 'v) dict option \<Rightarrow> ('k, 'v) dict option \<Rightarrow> bool" where
  "opt_dict_eq None None = True"
| "opt_dict_eq (Some a) (Some b) = dict_eq a b"
| "opt_dict_eq _ _ = False"

section \<open>File descriptors and manifests\<close>

text \<open>
  The dict that \<open>collect_files_recursively_from_item\<close> appends for a leaf file, with
  its six keys. A value is \<open>None\<close> when the item did not carry the key.
\<close>

record file_descriptor =
  fd_id :: "string option"
  fd_name :: "string option"
  fd_etag :: "string option"
  fd_size :: "int option"
  fd_lastModifiedDateTime :: "string option"
  fd_downloadUrl :: "string option"

text \<open>An entry of the manifest's readable \<open>files\<close> list: the descriptor without its download URL.\<close>

record manifest_file =
  mf_id :: "string option"
  mf_name :: "string option"
  mf_etag :: "string option"
  mf_size :: "int option"
  mf_lastModifiedDateTime :: "string option"

text \<open>
  A manifest is a dict with the keys \<open>files\<close>, \<open>map\<close> and \<open>count\<close>. The manifest of a
  config that has none is the empty dict \<open>{}\<close>, so each key may be missing: \<open>None\<close> is
  what \<open>.get\<close> returns then.
\<close>

record manifest =
  m_files :: "manifest_file list option"
  m_map :: "(string option, string option) dict option"
  m_count :: "int option"

definition empty_manifest :: manifest where
  "empty_manifest = \<lparr>m_files = None, m_map = None, m_count = None\<rparr>"

definition reduced :: "file_descriptor \<Rightarrow> manifest_file" where
  "reduced f = \<lparr>mf_id = fd_id f, mf_name = fd_name f, mf_etag = fd_etag f,
     mf_size = fd_size f, mf_lastModifiedDateTime = fd_lastModifiedDateTime f\<rparr>"

definition build_manifest :: "file_descriptor list \<Rightarrow> manifest" where
  "build_manifest files =
     \<lparr>m_files = Some (map reduced files),
      m_map = Some (dict_comprehension (map (\<lambda>f. (fd_id f, fd_etag f)) files)),
      m_count = Some (int (length files))\<rparr>"

definition manifests_equal :: "manifest \<Rightarrow> manifest \<Rightarrow> bool" where
  "manifests_equal a b = (opt_dict_eq (m_map a) (m_map b) \<and> m_count a = m_count b)"

text \<open>The invariant of a manifest held by Python: its \<open>map\<close>, when present, is a dict.\<close>

definition manifest_wf :: "manifest \<Rightarrow> bool" where
  "manifest_wf m = (case m_map m of None \<Rightarrow> True | Some d \<Rightarrow> dict_wf d)"

text \<open>The mapping a manifest's \<open>map\<close> denotes: which etag each id is sent to.\<close>

definition mapping_of :: "manifest \<Rightarrow> (string option \<rightharpoonup> string option) option" where
  "mapping_of m = map_option map_of (m_map m)"

section \<open>The remote listing\<close>

text \<open>
  A driveItem as Microsoft Graph returns it, with the keys app.py reads. Graph gives
  every item its \<open>id\<close> (the code addresses a folder's children by it); each other key
  may be missing, which is \<open>None\<close>. \<open>item_file\<close> and \<open>item_folder\<close> say whether the
  item has the key \<open>file\<close> and the key \<open>folder\<close>; \<open>item_parent_driveId\<close> is
  \<open>item.get("parentReference", {}).get("driveId")\<close>.
\<close>

record drive_item =
  item_id :: string
  item_name :: "string option"
  item_eTag :: "string option"
  item_size :: "int option"
  item_lastModifiedDateTime :: "string option"
  item_downloadUrl :: "string option"
  item_file :: bool
  item_folder :: bool
  item_parent_driveId :: "string option"

text \<open>
  \<open>item.get("eTag") or item.get("@microsoft.graph.downloadUrl", "")[:32]\<close>: Python's
  \<open>or\<close> gives its left operand when that is truthy and its right operand otherwise.
\<close>

definition item_etag :: "drive_item \<Rightarrow> string option" where
  "item_etag item =
     (if truthy (item_eTag item) then item_eTag item
      else Some (take 32 (case item_downloadUrl item of None \<Rightarrow> [] | Some u \<Rightarrow> u)))"

text \<open>The dict that \<open>_walk\<close> appends to \<open>results\<close> for an item with the key \<open>file\<close>.\<close>

definition descriptor :: "drive_item \<Rightarrow> file_descriptor" where
  "descriptor item =
     \<lparr>fd_id = Some (item_id item),
      fd_name = item_name item,
      fd_etag = item_etag item,
      fd_size = item_size item,
      fd_lastModifiedDateTime = item_lastModifiedDateTime item,
      fd_downloadUrl = item_downloadUrl item\<rparr>"

text \<open>
  The HTTP requests the program sends, in the order it sends them: the token request,
  the resolution of a sharing link, the metadata of an item, the children of an item
  of a drive, and the download of a file's content.
\<close>

datatype request =
    TokenRequest
  | ShareRequest string
  | ItemRequest string
  | ChildrenRequest string string
  | DownloadRequest string

section \<open>Persisted configuration and program state\<close>

text \<open>
  The config record of a cache (\<open>config.json\<close>), with the keys the program writes:
  \<open>type\<close>, \<open>source.filename\<close>, \<open>sharepoint.link\<close>, \<open>autosync\<close> and \<open>manifest\<close>. A
  missing key is \<open>None\<close>; the empty dict \<open>{}\<close> has none of them.
\<close>

record cache_config =
  cfg_type :: "string option"
  cfg_source_filename :: "string option"
  cfg_sharepoint_link :: "string option"
  cfg_autosync :: "bool option"
  cfg_manifest :: "manifest option"

definition empty_config :: cache_config where
  "empty_config = \<lparr>cfg_type = None, cfg_source_filename = None, cfg_sharepoint_link = None,
     cfg_autosync = None, cfg_manifest = None\<rparr>"

text \<open>
  What the program does to its surroundings apart from HTTP requests: a call of
  \<open>build_qa_engine\<close>, a call of \<open>save_vectorstore\<close>, a call of \<open>write_cache_config\<close>
  (each with the cache name), and the messages \<open>st.toast\<close> and \<open>st.warning\<close> show.
\<close>

datatype effect =
    BuildIndex string
  | SaveIndex string
  | WriteConfig string
  | Toast string
  | Warning error

text \<open>
  The state the synchronisation reads and writes: the two session entries \<open>qa\<close> (the
  in-memory index, of type \<open>'q\<close>) and \<open>current_cache_name\<close>; the persisted config and
  the persisted index artifact (of type \<open>'v\<close>) of each cache name under
  \<open>persisted_data\<close>; the requests sent and the effects performed so far.
\<close>

record ('q, 'v) state =
  qa :: "'q option"
  current_cache_name :: "string option"
  configs :: "string \<Rightarrow> cache_config option"
  vectorstores :: "string \<Rightarrow> 'v option"
  requests :: "request list"
  effects :: "effect list"

text \<open>
  The collaborators, whose code is outside app.py: the credentials read from the
  environment, the answers of the remote provider to each request (an exception of
  \<open>requests\<close> or of \<open>raise_for_status\<close> is \<open>Inl\<close>), text extraction, the two functions
  of \<open>qa_engine\<close>, whether the file system lets a config file be written, and the
  answer an in-memory index gives to a query. \<open>save_vectorstore\<close> and \<open>config_write\<close>
  give \<open>None\<close> when the write succeeds; when it raises they give the exception and
  what the failed write has left on disk for that cache (\<open>None\<close>: nothing that can
  be loaded), since a write that fails half-way need not leave the old content.
\<close>

record ('q, 'v) env =
  TENANT_ID :: "string option"
  CLIENT_ID :: "string option"
  CLIENT_SECRET :: "string option"
  token_response :: "error + string"
  share_response :: "string \<Rightarrow> string \<Rightarrow> error + drive_item"
  item_response :: "string \<Rightarrow> string \<Rightarrow> error + drive_item"
  children_response :: "string \<Rightarrow> string \<Rightarrow> string \<Rightarrow> error + drive_item list"
  download_response :: "string \<Rightarrow> error + string"
  get_raw_text :: "string \<Rightarrow> string option \<Rightarrow> error + string"
  build_qa_engine :: "string \<Rightarrow> string \<Rightarrow> error + 'q \<times> 'v"
  save_vectorstore :: "'v \<Rightarrow> string \<Rightarrow> (error \<times> 'v option) option"
  config_write :: "string \<Rightarrow> cache_config \<Rightarrow> (error \<times> cache_config option) option"
  run_qa :: "'q \<Rightarrow> string \<Rightarrow> string"

definition read_cache_config :: "('q, 'v) state \<Rightarrow> string \<Rightarrow> cache_config" where
  "read_cache_config st cache_name =
     (case configs st cache_name of None \<Rightarrow> empty_config | Some config \<Rightarrow> config)"

text \<open>
  \<open>write_cache_config\<close> creates the directory, opens the file for writing and dumps
  the config into it. Any of the three may raise; the stored config is then what the
  failed write left. The first component of the result is the exception raised,
  \<open>None\<close> when the call returns. The store holds configs as values: the
  serialisation to JSON and back is the identity on the configs of this model (ids
  that are keys of a manifest's map are strings on every path that writes one).
\<close>

definition write_cache_config ::
  "('q, 'v) env \<Rightarrow> string \<Rightarrow> cache_config \<Rightarrow> ('q, 'v) state \<Rightarrow> error option \<times> ('q, 'v) state" where
  "write_cache_config env cache_name config st =
     (let st1 = st\<lparr>effects := effects st @ [WriteConfig cache_name]\<rparr> in
      case config_write env cache_name config of
        Some (e, left) \<Rightarrow> (Some e, st1\<lparr>configs := (configs st1)(cache_name := left)\<rparr>)
      | None \<Rightarrow> (None, st1\<lparr>configs := (configs st1)(cache_name \<mapsto> config)\<rparr>))"

section \<open>SharePoint helpers\<close>

definition get_graph_token ::
  "('q, 'v) env \<Rightarrow> request list \<Rightarrow> (error + string) \<times> request list" where
  "get_graph_token env rq =
     (if \<not> (truthy (TENANT_ID env) \<and> truthy (CLIENT_ID env) \<and> truthy (CLIENT_SECRET env))
      then (Inl (RuntimeError ''SharePoint credentials not set in .env.''), rq)
      else (token_response env, rq @ [TokenRequest]))"

definition share_link_to_drive_item_meta ::
  "('q, 'v) env \<Rightarrow> string \<Rightarrow> string \<Rightarrow> request list \<Rightarrow> (error + drive_item) \<times> request list" where
  "share_link_to_drive_item_meta env share_link access_token rq =
     (share_response env share_link access_token, rq @ [ShareRequest share_link])"

text \<open>
  \<open>drive_id_from_item\<close> reads \<open>parentReference.driveId\<close> of the item's metadata; its
  fallback reads the same key again with the default \<open>""\<close>, so a missing drive id
  comes back as the empty string.
\<close>

definition drive_id_from_item ::
  "('q, 'v) env \<Rightarrow> string \<Rightarrow> string \<Rightarrow> request list \<Rightarrow> (error + string) \<times> request list" where
  "drive_id_from_item env iid access_token rq =
     (case item_response env iid access_token of
        Inl e \<Rightarrow> (Inl e, rq @ [ItemRequest iid])
      | Inr res \<Rightarrow>
          (Inr (case item_parent_driveId res of Some d \<Rightarrow> d | None \<Rightarrow> []),
           rq @ [ItemRequest iid]))"

text \<open>
  The drive of a folder in \<open>_walk\<close>: the one its \<open>parentReference\<close> names, and when that
  is missing or empty the one \<open>drive_id_from_item\<close> asks the provider for.
\<close>

definition folder_drive_id ::
  "('q, 'v) env \<Rightarrow> drive_item \<Rightarrow> string \<Rightarrow> request list \<Rightarrow> (error + string) \<times> request list" where
  "folder_drive_id env item access_token rq =
     (case item_parent_driveId item of
        None \<Rightarrow> drive_id_from_item env (item_id item) access_token rq
      | Some d \<Rightarrow>
          if d = [] then drive_id_from_item env (item_id item) access_token rq
          else (Inr d, rq))"

text \<open>
  \<open>_walk\<close>, with the list \<open>results\<close> it appends to and the requests sent so far passed
  along. The recursion follows the provider's answers, which need not describe a
  finite tree, so it carries fuel: the first argument bounds the depth of folders
  below the item, and \<open>None\<close> is the walk that has not returned within it. An
  exception (\<open>Inl\<close>) ends the walk at once and \<open>results\<close> is lost with it.
\<close>

fun walk ::
  "nat \<Rightarrow> ('q, 'v) env \<Rightarrow> string \<Rightarrow> drive_item \<Rightarrow> file_descriptor list \<Rightarrow> request list
     \<Rightarrow> ((error + file_descriptor list) \<times> request list) option"
and walk_children ::
  "nat \<Rightarrow> ('q, 'v) env \<Rightarrow> string \<Rightarrow> drive_item list \<Rightarrow> file_descriptor list \<Rightarrow> request list
     \<Rightarrow> ((error + file_descriptor list) \<times> request list) option"
where
  "walk 0 env access_token item results rq = None"
| "walk (Suc n) env access_token item results rq =
     (if item_file item then Some (Inr (results @ [descriptor item]), rq)
      else if item_folder item then
        (case folder_drive_id env item access_token rq of
           (Inl e, rq1) \<Rightarrow> Some (Inl e, rq1)
         | (Inr drive_id, rq1) \<Rightarrow>
             (case children_response env drive_id (item_id item) access_token of
                Inl e \<Rightarrow> Some (Inl e, rq1 @ [ChildrenRequest drive_id (item_id item)])
              | Inr children \<Rightarrow>
                  walk_children n env access_token children results
                    (rq1 @ [ChildrenRequest drive_id (item_id item)])))
      else Some (Inr results, rq))"
| "walk_children n env access_token [] results rq = Some (Inr results, rq)"
| "walk_children n env access_token (child # children) results rq =
     (case walk n env access_token child results rq of
        None \<Rightarrow> None
      | Some (Inl e, rq1) \<Rightarrow> Some (Inl e, rq1)
      | Some (Inr results1, rq1) \<Rightarrow> walk_children n env access_token children results1 rq1)"

definition collect_files_recursively_from_item ::
  "nat \<Rightarrow> ('q, 'v) env \<Rightarrow> drive_item \<Rightarrow> string \<Rightarrow> request list
     \<Rightarrow> ((error + file_descriptor list) \<times> request list) option" where
  "collect_files_recursively_from_item n env item_json access_token rq =
     walk n env access_token item_json [] rq"

text \<open>
  One turn of the loop of \<open>download_and_extract_text\<close> for a file that has a URL: the
  download (\<open>requests.get\<close> and \<open>raise_for_status\<close>) and the text extraction of its
  content. The descriptors of \<open>_walk\<close> always carry the key \<open>name\<close>, so
  \<open>f.get("name", "file")\<close> is its value.
\<close>

definition fetch_text :: "('q, 'v) env \<Rightarrow> string \<Rightarrow> string option \<Rightarrow> error + string" where
  "fetch_text env url name =
     (case download_response env url of
        Inl e \<Rightarrow> Inl e
      | Inr content \<Rightarrow> get_raw_text env content name)"

definition blank_line :: string where
  "blank_line = [CHR 0x0A, CHR 0x0A]"

text \<open>The loop of \<open>download_and_extract_text\<close> over the files left, with \<open>all_text\<close> so far.\<close>

fun download_loop ::
  "('q, 'v) env \<Rightarrow> file_descriptor list \<Rightarrow> string \<Rightarrow> request list
     \<Rightarrow> (error + string) \<times> request list" where
  "download_loop env [] all_text rq = (Inr all_text, rq)"
| "download_loop env (f # fs) all_text rq =
     (case fd_downloadUrl f of
        None \<Rightarrow> download_loop env fs all_text rq
      | Some url \<Rightarrow>
          if url = [] then download_loop env fs all_text rq
          else (case fetch_text env url (fd_name f) of
                  Inl e \<Rightarrow> (Inl e, rq @ [DownloadRequest url])
                | Inr t \<Rightarrow>
                    download_loop env fs (all_text @ t @ blank_line) (rq @ [DownloadRequest url])))"

definition download_and_extract_text ::
  "('q, 'v) env \<Rightarrow> file_descriptor list \<Rightarrow> request list \<Rightarrow> (error + string) \<times> request list" where
  "download_and_extract_text env files rq = download_loop env files [] rq"

section \<open>Building and saving the index\<close>

text \<open>
  \<open>rebuild_vectorstore_and_save\<close>: the session is assigned only after both
  \<open>build_qa_engine\<close> and \<open>save_vectorstore\<close> have returned.
\<close>

definition rebuild_vectorstore_and_save ::
  "('q, 'v) env \<Rightarrow> string \<Rightarrow> string \<Rightarrow> ('q, 'v) state \<Rightarrow> error option \<times> ('q, 'v) state" where
  "rebuild_vectorstore_and_save env cache_name raw_text st =
     (let st1 = st\<lparr>effects := effects st @ [BuildIndex cache_name]\<rparr> in
      case build_qa_engine env raw_text cache_name of
        Inl e \<Rightarrow> (Some e, st1)
      | Inr (q, vectorstore) \<Rightarrow>
          (let st2 = st1\<lparr>effects := effects st1 @ [SaveIndex cache_name]\<rparr> in
           case save_vectorstore env vectorstore cache_name of
             Some (e, left) \<Rightarrow>
               (Some e, st2\<lparr>vectorstores := (vectorstores st2)(cache_name := left)\<rparr>)
           | None \<Rightarrow>
               (None, st2\<lparr>vectorstores := (vectorstores st2)(cache_name \<mapsto> vectorstore),
                           qa := Some q,
                           current_cache_name := Some cache_name\<rparr>)))"

section \<open>Auto-sync\<close>

text \<open>
  The four early returns of \<open>maybe_autosync_current_cache\<close>: no cache is active, its
  config is not of type \<open>sharepoint\<close>, auto-sync is off, or there is no sharing link.
  \<open>None\<close> is an early return; otherwise the cache name, its config and the link.
\<close>

definition sync_target :: "('q, 'v) state \<Rightarrow> (string \<times> cache_config \<times> string) option" where
  "sync_target st =
     (case current_cache_name st of
        None \<Rightarrow> None
      | Some cache \<Rightarrow>
          if cache = [] then None
          else (let cfg = read_cache_config st cache in
                if cfg_type cfg \<noteq> Some ''sharepoint'' then None
                else if \<not> (case cfg_autosync cfg of None \<Rightarrow> False | Some b \<Rightarrow> b) then None
                else (case cfg_sharepoint_link cfg of
                        None \<Rightarrow> None
                      | Some share_link \<Rightarrow>
                          if share_link = [] then None else Some (cache, cfg, share_link))))"

text \<open>The first three statements of the \<open>try\<close> block: token, root item, listing.\<close>

definition remote_listing ::
  "nat \<Rightarrow> ('q, 'v) env \<Rightarrow> string \<Rightarrow> request list
     \<Rightarrow> ((error + file_descriptor list) \<times> request list) option" where
  "remote_listing n env share_link rq =
     (case get_graph_token env rq of
        (Inl e, rq1) \<Rightarrow> Some (Inl e, rq1)
      | (Inr token, rq1) \<Rightarrow>
          (case share_link_to_drive_item_meta env share_link token rq1 of
             (Inl e, rq2) \<Rightarrow> Some (Inl e, rq2)
           | (Inr item_json, rq2) \<Rightarrow>
               collect_files_recursively_from_item n env item_json token rq2))"

text \<open>\<open>cfg.get("manifest", {})\<close>.\<close>

definition old_manifest_of :: "cache_config \<Rightarrow> manifest" where
  "old_manifest_of cfg = (case cfg_manifest cfg of None \<Rightarrow> empty_manifest | Some m \<Rightarrow> m)"

text \<open>The block under \<open>if not manifests_equal(new_manifest, old_manifest)\<close>.\<close>

definition sync_changes ::
  "('q, 'v) env \<Rightarrow> string \<Rightarrow> cache_config \<Rightarrow> file_descriptor list \<Rightarrow> manifest
     \<Rightarrow> ('q, 'v) state \<Rightarrow> error option \<times> ('q, 'v) state" where
  "sync_changes env cache cfg files new_manifest st =
     (case download_and_extract_text env files (requests st) of
        (Inl e, rq) \<Rightarrow> (Some e, st\<lparr>requests := rq\<rparr>)
      | (Inr text, rq) \<Rightarrow>
          (case rebuild_vectorstore_and_save env cache text (st\<lparr>requests := rq\<rparr>) of
             (Some e, st2) \<Rightarrow> (Some e, st2)
           | (None, st2) \<Rightarrow>
               (case write_cache_config env cache (cfg\<lparr>cfg_manifest := Some new_manifest\<rparr>) st2 of
                  (Some e, st3) \<Rightarrow> (Some e, st3)
                | (None, st3) \<Rightarrow> (None, st3\<lparr>effects := effects st3 @ [Toast cache]\<rparr>))))"

text \<open>The body of the \<open>try\<close> block; the exception it raises, if any, with the state then.\<close>

definition autosync_try ::
  "nat \<Rightarrow> ('q, 'v) env \<Rightarrow> string \<Rightarrow> cache_config \<Rightarrow> string \<Rightarrow> ('q, 'v) state
     \<Rightarrow> (error option \<times> ('q, 'v) state) option" where
  "autosync_try n env cache cfg share_link st =
     (case remote_listing n env share_link (requests st) of
        None \<Rightarrow> None
      | Some (Inl e, rq) \<Rightarrow> Some (Some e, st\<lparr>requests := rq\<rparr>)
      | Some (Inr files, rq) \<Rightarrow>
          (let new_manifest = build_manifest files;
               old_manifest = old_manifest_of cfg
           in if \<not> manifests_equal new_manifest old_manifest
              then Some (sync_changes env cache cfg files new_manifest (st\<lparr>requests := rq\<rparr>))
              else Some (None, st\<lparr>requests := rq\<rparr>)))"

text \<open>
  \<open>maybe_autosync_current_cache\<close>: \<open>except Exception\<close> turns an exception of the \<open>try\<close>
  block into a warning. \<open>None\<close> is a run whose traversal has not returned within the
  fuel.
\<close>

definition maybe_autosync_current_cache ::
  "nat \<Rightarrow> ('q, 'v) env \<Rightarrow> ('q, 'v) state \<Rightarrow> ('q, 'v) state option" where
  "maybe_autosync_current_cache n env st =
     (case sync_target st of
        None \<Rightarrow> Some st
      | Some (cache, cfg, share_link) \<Rightarrow>
          (case autosync_try n env cache cfg share_link st of
             None \<Rightarrow> None
           | Some (None, st1) \<Rightarrow> Some st1
           | Some (Some e, st1) \<Rightarrow> Some (st1\<lparr>effects := effects st1 @ [Warning e]\<rparr>)))"


section \<open>Notions of the specification\<close>

text \<open>
  The requests of a listing: every request but the download of a file's content.
\<close>

fun listing_request :: "request \<Rightarrow> bool" where
  "listing_request (DownloadRequest u) = False"
| "listing_request _ = True"

text \<open>
  The specification's condition for a sync attempt, in its words: the config has type
  \<open>sharepoint\<close>, \<open>autosync\<close> is true and a sharing link is present; and the state in
  which the active cache's config meets it.
\<close>

definition sync_preconditions :: "cache_config \<Rightarrow> bool" where
  "sync_preconditions cfg =
     (cfg_type cfg = Some ''sharepoint'' \<and> cfg_autosync cfg = Some True
      \<and> truthy (cfg_sharepoint_link cfg))"

definition autosync_enabled :: "('q, 'v) state \<Rightarrow> bool" where
  "autosync_enabled st =
     (case current_cache_name st of
        None \<Rightarrow> False
      | Some cache \<Rightarrow> cache \<noteq> [] \<and> sync_preconditions (read_cache_config st cache))"



section \<open>A scenario\<close>

text \<open>
  The cache \<open>policies\<close> of a shared folder \<open>R\<close> with the two files \<open>A\<close> and \<open>B\<close>, synchronised
  when both had the etag \<open>v1\<close>. The provider's answers are parametrised by the etag
  of \<open>A\<close> now. Downloads return the URL as content and extraction returns the content,
  so the text of a file is its URL; the index built from a text is the text, tagged.
\<close>

definition file_A :: "string \<Rightarrow> drive_item" where
  "file_A tag = \<lparr>item_id = ''A'', item_name = Some ''a.pdf'', item_eTag = Some tag,
     item_size = Some 10, item_lastModifiedDateTime = Some ''2024-01-01'',
     item_downloadUrl = Some ''https://dl/A'', item_file = True, item_folder = False,
     item_parent_driveId = Some ''d1''\<rparr>"

definition file_B :: drive_item where
  "file_B = \<lparr>item_id = ''B'', item_name = Some ''b.docx'', item_eTag = Some ''v1'',
     item_size = Some 20, item_lastModifiedDateTime = Some ''2024-01-02'',
     item_downloadUrl = Some ''https://dl/B'', item_file = True, item_folder = False,
     item_parent_driveId = Some ''d1''\<rparr>"

definition root_folder :: drive_item where
  "root_folder = \<lparr>item_id = ''R'', item_name = Some ''policies'', item_eTag = None,
     item_size = None, item_lastModifiedDateTime = None,
     item_downloadUrl = None, item_file = False, item_folder = True,
     item_parent_driveId = Some ''d1''\<rparr>"

definition example_env :: "string \<Rightarrow> (string, string) env" where
  "example_env tag = \<lparr>TENANT_ID = Some ''t'', CLIENT_ID = Some ''c'', CLIENT_SECRET = Some ''s'',
     token_response = Inr ''tok'',
     share_response = (\<lambda>link tok. Inr root_folder),
     item_response = (\<lambda>i tok. Inr root_folder),
     children_response = (\<lambda>d i tok. Inr [file_A tag, file_B]),
     download_response = (\<lambda>url. Inr url),
     get_raw_text = (\<lambda>content name. Inr content),
     build_qa_engine = (\<lambda>raw cache. Inr (''qa:'' @ raw, ''vs:'' @ raw)),
     save_vectorstore = (\<lambda>v cache. None),
     config_write = (\<lambda>cache cfg. None),
     run_qa = (\<lambda>h q. h @ ''?'' @ q)\<rparr>"

definition example_config :: cache_config where
  "example_config = \<lparr>cfg_type = Some ''sharepoint'', cfg_source_filename = None,
     cfg_sharepoint_link = Some ''https://sp/x'', cfg_autosync = Some True,
     cfg_manifest = Some (build_manifest [descriptor (file_A ''v1''), descriptor file_B])\<rparr>"

definition example_state :: "(string, string) state" where
  "example_state = \<lparr>qa = Some ''qa:old'', current_cache_name = Some ''policies'',
     configs = [''policies'' \<mapsto> example_config],
     vectorstores = [''policies'' \<mapsto> ''vs:old''],
     requests = [], effects = []\<rparr>"

text \<open>The provider after \<open>A\<close> has been renamed and touched, its etag still \<open>v1\<close>.\<close>

definition renamed_A :: drive_item where
  "renamed_A = (file_A ''v1'')\<lparr>item_name := Some ''renamed.pdf'', item_size := Some 11,
     item_lastModifiedDateTime := Some ''2025-05-05''\<rparr>"

definition renamed_env :: "(string, string) env" where
  "renamed_env =
     (example_env ''v1'')\<lparr>children_response := (\<lambda>d i tok. Inr [renamed_A, file_B])\<rparr>"

text \<open>The same state with auto-sync switched off for the cache.\<close>

definition autosync_off_state :: "(string, string) state" where
  "autosync_off_state =
     example_state\<lparr>configs := [''policies'' \<mapsto> example_config\<lparr>cfg_autosync := Some False\<rparr>]\<rparr>"



text \<open>A manifest with the items of the scenario's map in the other order, and a file
  without a download URL.\<close>

definition swapped_manifest :: manifest where
  "swapped_manifest = \<lparr>m_files = None,
     m_map = Some [(Some ''B'', Some ''v1''), (Some ''A'', Some ''v1'')],
     m_count = Some 2\<rparr>"


section \<open>Dictionaries: basic facts\<close>

lemma map_of_dict_setitem: "map_of (dict_setitem k v d) = (map_of d)(k \<mapsto> v)"
  by (induction d) (auto simp: fun_eq_iff)

lemma keys_dict_setitem:
  "map fst (dict_setitem k v d) = (if k \<in> fst ` set d then map fst d else map fst d @ [k])"
proof (induction d)
  case Nil
  show ?case by simp
next
  case (Cons p d)
  obtain k' v' where p: "p = (k', v')" by (cases p)
  show ?case
  proof (cases "k' = k")
    case True
    with p show ?thesis by simp
  next
    case False
    with p Cons.IH show ?thesis by (simp split: if_splits)
  qed
qed

lemma distinct_dict_setitem:
  "distinct (map fst d) \<Longrightarrow> distinct (map fst (dict_setitem k v d))"
  by (simp add: keys_dict_setitem)

lemma foldl_setitem_map_of:
  "map_of (foldl (\<lambda>d (k, v). dict_setitem k v d) d0 ps) = map_of (rev ps @ d0)"
proof (induction ps arbitrary: d0)
  case Nil
  show ?case by simp
next
  case (Cons p ps)
  obtain k v where p: "p = (k, v)" by (cases p)
  have "map_of (rev ps @ dict_setitem k v d0) = map_of (rev ps @ (k, v) # d0)"
    by (simp add: map_of_append map_of_dict_setitem fun_eq_iff map_add_def split: option.splits)
  with Cons.IH [of "dict_setitem k v d0"] p show ?case by simp
qed

lemma foldl_setitem_distinct:
  "distinct (map fst d0) \<Longrightarrow>
   distinct (map fst (foldl (\<lambda>d (k, v). dict_setitem k v d) d0 ps))"
proof (induction ps arbitrary: d0)
  case Nil
  then show ?case by simp
next
  case (Cons p ps)
  obtain k v where p: "p = (k, v)" by (cases p)
  from Cons.prems have "distinct (map fst (dict_setitem k v d0))"
    by (rule distinct_dict_setitem)
  from Cons.IH [OF this] p show ?case by simp
qed

lemma map_of_dict_comprehension: "map_of (dict_comprehension ps) = map_of (rev ps)"
  using foldl_setitem_map_of [of "[]" ps] by (simp add: dict_comprehension_def)

lemma dict_wf_comprehension: "dict_wf (dict_comprehension ps)"
  using foldl_setitem_distinct [of "[]" ps]
  by (simp add: dict_wf_def dict_keys_def dict_comprehension_def)

lemma keys_dict_comprehension: "set (dict_keys (dict_comprehension ps)) = fst ` set ps"
proof -
  have "dom (map_of (dict_comprehension ps)) = dom (map_of (rev ps))"
    by (simp add: map_of_dict_comprehension)
  then show ?thesis by (simp add: dom_map_of_conv_image_fst dict_keys_def)
qed

lemma length_dict_comprehension: "length (dict_comprehension ps) = card (fst ` set ps)"
proof -
  have "length (dict_comprehension ps) = length (dict_keys (dict_comprehension ps))"
    by (simp add: dict_keys_def)
  also have "\<dots> = card (set (dict_keys (dict_comprehension ps)))"
    using dict_wf_comprehension [of ps] by (simp add: dict_wf_def distinct_card)
  finally show ?thesis by (simp add: keys_dict_comprehension)
qed

text \<open>
  On dicts, Python's \<open>==\<close> is equality of the mappings they denote, whatever the
  order of insertion.
\<close>

lemma dict_eq_iff_map_of:
  assumes "dict_wf a" and "dict_wf b"
  shows "dict_eq a b \<longleftrightarrow> map_of a = map_of b"
proof
  assume eq: "dict_eq a b"
  then have len: "length a = length b"
    and sub: "\<forall>(k, v) \<in> set a. map_of b k = Some v"
    by (auto simp: dict_eq_def dict_get_def list_all_iff)
  have da: "distinct (map fst a)" and db: "distinct (map fst b)"
    using assms by (simp_all add: dict_wf_def dict_keys_def)
  have "set a \<subseteq> set b"
    using sub by (auto dest: map_of_SomeD)
  moreover have "card (set a) = card (set b)"
    using da db len by (metis distinct_card distinct_map length_map)
  ultimately have "set a = set b"
    by (simp add: card_subset_eq)
  with da db show "map_of a = map_of b"
    by (simp add: map_of_inject_set)
next
  assume eq: "map_of a = map_of b"
  have da: "distinct (map fst a)" and db: "distinct (map fst b)"
    using assms by (simp_all add: dict_wf_def dict_keys_def)
  from eq da db have s: "set a = set b"
    by (simp add: map_of_inject_set)
  have "length a = card (set a)" "length b = card (set b)"
    using da db by (metis distinct_card distinct_map)+
  with s have len: "length a = length b" by simp
  have "\<forall>(k, v) \<in> set a. map_of b k = Some v"
    using db s by auto
  with len show "dict_eq a b"
    by (auto simp: dict_eq_def dict_get_def list_all_iff)
qed

lemma map_of_last_wins:
  assumes "k \<notin> fst ` set post"
  shows "map_of (rev (pre @ (k, v) # post)) k = Some v"
proof -
  from assms have "map_of (rev post) k = None"
    by (simp add: map_of_eq_None_iff)
  then show ?thesis by (simp add: map_of_append map_add_def)
qed

section \<open>Manifests\<close>

lemma manifest_wf_build: "manifest_wf (build_manifest fs)"
  by (simp add: manifest_wf_def build_manifest_def dict_wf_comprehension)

text \<open>
  Claim C2. For every pair of manifests \<open>a\<close> and \<open>b\<close>, \<open>manifests_equal a b\<close> holds if and
  only if the id-to-etag map of \<open>a\<close> equals that of \<open>b\<close> as a mapping (the same keys
  with the same values) and the two counts are equal. A manifest without the key
  \<open>map\<close> has the mapping \<open>None\<close>, which equals only itself.
\<close>

theorem manifests_equal_iff_mapping:
  assumes "manifest_wf a" and "manifest_wf b"
  shows "manifests_equal a b \<longleftrightarrow> (mapping_of a = mapping_of b \<and> m_count a = m_count b)"
proof (cases "m_map a")
  case None
  then show ?thesis
    by (cases "m_map b") (simp_all add: manifests_equal_def mapping_of_def)
next
  case (Some da)
  show ?thesis
  proof (cases "m_map b")
    case None
    with Some show ?thesis by (simp add: manifests_equal_def mapping_of_def)
  next
    case (Some db)
    from assms \<open>m_map a = Some da\<close> Some have "dict_wf da" "dict_wf db"
      by (simp_all add: manifest_wf_def)
    then have "dict_eq da db \<longleftrightarrow> map_of da = map_of db"
      by (rule dict_eq_iff_map_of)
    with \<open>m_map a = Some da\<close> Some show ?thesis
      by (simp add: manifests_equal_def mapping_of_def)
  qed
qed

theorem manifests_equal_iff_mapping_witness:
  "manifest_wf (build_manifest [descriptor (file_A ''v1''), descriptor file_B]) \<and> manifest_wf swapped_manifest
   \<and> manifests_equal (build_manifest [descriptor (file_A ''v1''), descriptor file_B]) swapped_manifest
   \<and> mapping_of (build_manifest [descriptor (file_A ''v1''), descriptor file_B]) = mapping_of swapped_manifest
   \<and> m_count (build_manifest [descriptor (file_A ''v1''), descriptor file_B]) = m_count swapped_manifest"
proof -
  have wa: "manifest_wf (build_manifest [descriptor (file_A ''v1''), descriptor file_B])"
    by (simp add: manifest_wf_def build_manifest_def dict_comprehension_def dict_wf_def
        dict_keys_def file_A_def descriptor_def item_etag_def file_B_def)
  have wb: "manifest_wf swapped_manifest"
    by (simp add: manifest_wf_def swapped_manifest_def dict_wf_def dict_keys_def)
  have eq: "manifests_equal (build_manifest [descriptor (file_A ''v1''), descriptor file_B]) swapped_manifest"
    by (simp add: manifests_equal_def build_manifest_def dict_comprehension_def dict_eq_def
        dict_get_def swapped_manifest_def file_A_def descriptor_def item_etag_def file_B_def)
  from manifests_equal_iff_mapping [OF wa wb] eq wa wb show ?thesis by simp
qed

text \<open>
  Claim C3. For every sequence of file descriptors, \<open>build_manifest\<close> sets \<open>count\<close> to
  the length of the sequence; its \<open>map\<close> has exactly the ids of the sequence as keys
  and sends each id to the etag of its last occurrence; so the map has as many items
  as the sequence when the ids are distinct, and fewer than \<open>count\<close> says when an id
  is repeated.
\<close>

theorem build_manifest_count_and_map:
  "m_count (build_manifest fs) = Some (int (length fs)) \<and>
   (\<exists>d. m_map (build_manifest fs) = Some d \<and> dict_wf d \<and>
        set (dict_keys d) = fd_id ` set fs \<and>
        (\<forall>pre f post. fs = pre @ f # post \<and> fd_id f \<notin> fd_id ` set post
            \<longrightarrow> dict_get d (fd_id f) = Some (fd_etag f)) \<and>
        (distinct (map fd_id fs) \<longrightarrow> length d = length fs) \<and>
        (\<not> distinct (map fd_id fs) \<longrightarrow> length d < length fs))"
proof -
  let ?ps = "map (\<lambda>f. (fd_id f, fd_etag f)) fs"
  let ?d = "dict_comprehension ?ps"
  have m: "m_map (build_manifest fs) = Some ?d"
    by (simp add: build_manifest_def)
  have keys: "set (dict_keys ?d) = fd_id ` set fs"
    by (simp add: keys_dict_comprehension image_image)
  have last: "dict_get ?d (fd_id f) = Some (fd_etag f)"
    if "fs = pre @ f # post" and "fd_id f \<notin> fd_id ` set post" for pre f post
  proof -
    let ?pre = "map (\<lambda>f. (fd_id f, fd_etag f)) pre"
    let ?post = "map (\<lambda>f. (fd_id f, fd_etag f)) post"
    from that(1) have "?ps = ?pre @ (fd_id f, fd_etag f) # ?post" by simp
    moreover from that(2) have "fd_id f \<notin> fst ` set ?post" by (simp add: image_image)
    ultimately have "map_of (rev ?ps) (fd_id f) = Some (fd_etag f)"
      using map_of_last_wins [of "fd_id f" ?post ?pre "fd_etag f"] by simp
    then show ?thesis by (simp add: dict_get_def map_of_dict_comprehension)
  qed
  have len: "length ?d = card (set (map fd_id fs))"
    by (simp add: length_dict_comprehension image_image)
  have same: "length ?d = length fs" if "distinct (map fd_id fs)"
    using that len distinct_card [of "map fd_id fs"] by simp
  have less: "length ?d < length fs" if "\<not> distinct (map fd_id fs)"
  proof -
    have "card (set (map fd_id fs)) \<le> length (map fd_id fs)" by (rule card_length)
    moreover from that have "card (set (map fd_id fs)) \<noteq> length (map fd_id fs)"
      using card_distinct by blast
    ultimately show ?thesis using len by simp
  qed
  have "m_count (build_manifest fs) = Some (int (length fs))"
    by (simp add: build_manifest_def)
  with m keys last same less dict_wf_comprehension [of ?ps] show ?thesis by blast
qed

theorem build_manifest_count_and_map_witness:
  "\<not> distinct (map fd_id [descriptor (file_A ''v1''), descriptor (file_A ''v2'')]) \<and>
   m_count (build_manifest [descriptor (file_A ''v1''), descriptor (file_A ''v2'')]) = Some 2 \<and>
   (\<exists>d. m_map (build_manifest [descriptor (file_A ''v1''), descriptor (file_A ''v2'')]) = Some d \<and>
        length d < 2 \<and> dict_get d (Some ''A'') = Some (Some ''v2''))"
proof -
  let ?F = "[descriptor (file_A ''v1''), descriptor (file_A ''v2'')]"
  have dup: "\<not> distinct (map fd_id ?F)"
    by code_simp
  have split: "?F = [descriptor (file_A ''v1'')] @ descriptor (file_A ''v2'') # []"
    by simp
  have last: "fd_id (descriptor (file_A ''v2'')) \<notin> fd_id ` set []"
    by simp
  have idA: "fd_id (descriptor (file_A ''v2'')) = Some ''A''"
    and tagA: "fd_etag (descriptor (file_A ''v2'')) = Some ''v2''"
    by code_simp+
  from build_manifest_count_and_map [of ?F] obtain d where
    c: "m_count (build_manifest ?F) = Some (int (length ?F))"
    and d: "m_map (build_manifest ?F) = Some d"
    and w: "\<forall>pre f post. ?F = pre @ f # post \<and> fd_id f \<notin> fd_id ` set post
            \<longrightarrow> dict_get d (fd_id f) = Some (fd_etag f)"
    and l: "\<not> distinct (map fd_id ?F) \<longrightarrow> length d < length ?F"
    by blast
  from w split last have "dict_get d (fd_id (descriptor (file_A ''v2''))) =
      Some (fd_etag (descriptor (file_A ''v2'')))"
    by blast
  with idA tagA have "dict_get d (Some ''A'') = Some (Some ''v2'')" by simp
  moreover from l dup have "length d < 2" by simp
  moreover from c have "m_count (build_manifest ?F) = Some 2" by simp
  ultimately show ?thesis using dup d by blast
qed

text \<open>
  Claim C8. Two descriptor sequences with unique ids that are permutations of each
  other (the same multiset of descriptors) give manifests that \<open>manifests_equal\<close>
  judges equal.
\<close>

theorem build_manifest_order_independent:
  assumes "distinct (map fd_id fs)" and "mset fs = mset gs"
  shows "manifests_equal (build_manifest fs) (build_manifest gs)"
proof -
  let ?p = "\<lambda>f. (fd_id f, fd_etag f)"
  have len: "length fs = length gs"
    using assms(2) by (rule mset_eq_length)
  have "mset (map fd_id fs) = mset (map fd_id gs)"
    using assms(2) by (metis mset_map)
  with assms(1) have dg: "distinct (map fd_id gs)"
    by (metis mset_eq_imp_distinct_iff)
  have "set fs = set gs"
    using assms(2) by (rule mset_eq_setD)
  then have s: "set (rev (map ?p fs)) = set (rev (map ?p gs))" by simp
  have k: "map fst (map ?p hs) = map fd_id hs" for hs :: "file_descriptor list"
    by (induction hs) simp_all
  from assms(1) dg have "distinct (map fst (rev (map ?p fs)))" "distinct (map fst (rev (map ?p gs)))"
    by (simp_all only: rev_map [symmetric] distinct_rev k)
  with s have "map_of (rev (map ?p fs)) = map_of (rev (map ?p gs))"
    by (simp only: map_of_inject_set)
  then have "map_of (dict_comprehension (map ?p fs)) = map_of (dict_comprehension (map ?p gs))"
    by (simp only: map_of_dict_comprehension)
  then have "dict_eq (dict_comprehension (map ?p fs)) (dict_comprehension (map ?p gs))"
    by (simp add: dict_eq_iff_map_of dict_wf_comprehension)
  with len show ?thesis
    by (simp add: manifests_equal_def build_manifest_def)
qed

theorem build_manifest_order_independent_witness:
  "distinct (map fd_id [descriptor (file_A ''v1''), descriptor file_B]) \<and>
   mset [descriptor (file_A ''v1''), descriptor file_B] =
     mset [descriptor file_B, descriptor (file_A ''v1'')] \<and>
   manifests_equal (build_manifest [descriptor (file_A ''v1''), descriptor file_B])
     (build_manifest [descriptor file_B, descriptor (file_A ''v1'')])"
proof -
  have d: "distinct (map fd_id [descriptor (file_A ''v1''), descriptor file_B])"
    by code_simp
  have m: "mset [descriptor (file_A ''v1''), descriptor file_B] =
     mset [descriptor file_B, descriptor (file_A ''v1'')]"
    by (simp add: add_mset_commute)
  from build_manifest_order_independent [OF d m] d m show ?thesis by simp
qed

lemma same_ids_etags_manifests_equal:
  assumes "map fd_id fs = map fd_id gs" and "map fd_etag fs = map fd_etag gs"
  shows "manifests_equal (build_manifest fs) (build_manifest gs)"
proof -
  let ?p = "\<lambda>f. (fd_id f, fd_etag f)"
  have len: "length fs = length gs"
    using assms(1) by (rule map_eq_imp_length_eq)
  have "map ?p fs = zip (map fd_id fs) (map fd_etag fs)"
    by (induction fs) simp_all
  moreover have "map ?p gs = zip (map fd_id gs) (map fd_etag gs)"
    by (induction gs) simp_all
  ultimately have "map ?p fs = map ?p gs"
    using assms by simp
  then have "dict_comprehension (map ?p fs) = dict_comprehension (map ?p gs)"
    by simp
  moreover have "dict_eq (dict_comprehension (map ?p gs)) (dict_comprehension (map ?p gs))"
    by (simp add: dict_eq_iff_map_of dict_wf_comprehension)
  ultimately show ?thesis
    using len by (simp add: manifests_equal_def build_manifest_def)
qed

section \<open>The traversal\<close>

lemma drive_id_from_item_requests:
  "drive_id_from_item env i tok rq = (r, rq1) \<Longrightarrow> rq1 = rq @ [ItemRequest i]"
  by (auto simp: drive_id_from_item_def split: sum.splits)

lemma folder_drive_id_requests:
  "folder_drive_id env item tok rq = (r, rq1) \<Longrightarrow>
   \<exists>more. rq1 = rq @ more \<and> list_all listing_request more"
  by (auto simp: folder_drive_id_def split: option.splits if_splits
      dest!: drive_id_from_item_requests)

lemma walk_requests:
  shows "walk n env tok item results rq = Some (r, rq') \<Longrightarrow>
      \<exists>more. rq' = rq @ more \<and> list_all listing_request more"
  and "walk_children n env tok items results rq = Some (r, rq') \<Longrightarrow>
      \<exists>more. rq' = rq @ more \<and> list_all listing_request more"
proof (induction n env tok item results rq and n env tok items results rq
    arbitrary: r rq' and r rq' rule: walk_walk_children.induct)
  case (1 env tok item results rq)
  then show ?case by simp
next
  case (2 n env tok item results rq)
  note w = "2.prems"
  show ?case
  proof (cases "item_file item")
    case True
    with w show ?thesis by simp
  next
    case nofile: False
    show ?thesis
    proof (cases "item_folder item")
      case False
      with nofile w show ?thesis by simp
    next
      case folder: True
      obtain d rq1 where f: "folder_drive_id env item tok rq = (d, rq1)"
        by (cases "folder_drive_id env item tok rq")
      from folder_drive_id_requests [OF f] obtain m1 where
        m1: "rq1 = rq @ m1" "list_all listing_request m1" by blast
      show ?thesis
      proof (cases d)
        case (Inl e)
        with w nofile folder f m1 show ?thesis by auto
      next
        case (Inr drive_id)
        show ?thesis
        proof (cases "children_response env drive_id (item_id item) tok")
          case (Inl e)
          with w nofile folder f m1 Inr show ?thesis
            by auto
        next
          case children: (Inr children)
          from w nofile folder f Inr children have
            "walk_children n env tok children results
               (rq1 @ [ChildrenRequest drive_id (item_id item)]) = Some (r, rq')"
            by simp
          with "2.IH" [OF nofile folder f [symmetric] Inr children] obtain m2 where
            "rq' = (rq1 @ [ChildrenRequest drive_id (item_id item)]) @ m2"
            "list_all listing_request m2"
            by blast
          with m1 show ?thesis by auto
        qed
      qed
    qed
  qed
next
  case (3 n env tok results rq)
  then show ?case by simp
next
  case (4 n env tok child children results rq)
  note w = "4.prems"
  show ?case
  proof (cases "walk n env tok child results rq")
    case None
    with w show ?thesis by simp
  next
    case (Some p)
    obtain r1 rq1 where p: "p = (r1, rq1)" by (cases p)
    from "4.IH"(1) Some p obtain m1 where
      m1: "rq1 = rq @ m1" "list_all listing_request m1" by blast
    show ?thesis
    proof (cases r1)
      case (Inl e)
      with w Some p m1 show ?thesis by auto
    next
      case (Inr results1)
      with w Some p have "walk_children n env tok children results1 rq1 = Some (r, rq')"
        by simp
      with "4.IH"(2) [OF Some [unfolded p] refl Inr] obtain m2 where
        "rq' = rq1 @ m2" "list_all listing_request m2" by blast
      with m1 show ?thesis by auto
    qed
  qed
qed

lemma walk_results:
  shows "walk n env tok item results rq = Some (Inr rs, rq') \<Longrightarrow>
      \<exists>its. rs = results @ map descriptor its \<and> list_all item_file its"
  and "walk_children n env tok items results rq = Some (Inr rs, rq') \<Longrightarrow>
      \<exists>its. rs = results @ map descriptor its \<and> list_all item_file its"
proof (induction n env tok item results rq and n env tok items results rq
    arbitrary: rs rq' and rs rq' rule: walk_walk_children.induct)
  case (1 env tok item results rq)
  then show ?case by simp
next
  case (2 n env tok item results rq)
  note w = "2.prems"
  show ?case
  proof (cases "item_file item")
    case True
    with w have "rs = results @ map descriptor [item]" "list_all item_file [item]"
      by simp_all
    then show ?thesis by blast
  next
    case nofile: False
    show ?thesis
    proof (cases "item_folder item")
      case False
      with nofile w have "rs = results @ map descriptor []" "list_all item_file []" by simp_all
      then show ?thesis by blast
    next
      case folder: True
      obtain d rq1 where f: "folder_drive_id env item tok rq = (d, rq1)"
        by (cases "folder_drive_id env item tok rq")
      show ?thesis
      proof (cases d)
        case (Inl e)
        with w nofile folder f show ?thesis by simp
      next
        case (Inr drive_id)
        show ?thesis
        proof (cases "children_response env drive_id (item_id item) tok")
          case (Inl e)
          with w nofile folder f Inr show ?thesis by simp
        next
          case children: (Inr children)
          from w nofile folder f Inr children have
            "walk_children n env tok children results
               (rq1 @ [ChildrenRequest drive_id (item_id item)]) = Some (Inr rs, rq')"
            by simp
          with "2.IH" [OF nofile folder f [symmetric] Inr children] show ?thesis
            by blast
        qed
      qed
    qed
  qed
next
  case (3 n env tok results rq)
  then have "rs = results @ map descriptor []" "list_all item_file []" by simp_all
  then show ?case by blast
next
  case (4 n env tok child children results rq)
  note w = "4.prems"
  show ?case
  proof (cases "walk n env tok child results rq")
    case None
    with w show ?thesis by simp
  next
    case (Some p)
    obtain r1 rq1 where p: "p = (r1, rq1)" by (cases p)
    show ?thesis
    proof (cases r1)
      case (Inl e)
      with w Some p show ?thesis by simp
    next
      case (Inr results1)
      from "4.IH"(1) Some p Inr obtain its1 where
        i1: "results1 = results @ map descriptor its1" "list_all item_file its1" by blast
      from Inr w Some p have "walk_children n env tok children results1 rq1 = Some (Inr rs, rq')"
        by simp
      with "4.IH"(2) [OF Some [unfolded p] refl Inr] obtain its2 where
        i2: "rs = results1 @ map descriptor its2" "list_all item_file its2" by blast
      from i1 i2 have "rs = results @ map descriptor (its1 @ its2)" "list_all item_file (its1 @ its2)"
        by simp_all
      then show ?thesis by blast
    qed
  qed
qed

text \<open>
  The fuel only bounds the walk: one that returns within a bound returns the same
  within every larger one.
\<close>

lemma walk_more_fuel:
  shows "walk n env tok item results rq = Some r \<Longrightarrow>
      walk (Suc n) env tok item results rq = Some r"
  and "walk_children n env tok items results rq = Some r \<Longrightarrow>
      walk_children (Suc n) env tok items results rq = Some r"
proof (induction n env tok item results rq and n env tok items results rq
    arbitrary: r and r rule: walk_walk_children.induct)
  case (1 env tok item results rq)
  then show ?case by simp
next
  case (2 n env tok item results rq)
  note w = "2.prems"
  show ?case
  proof (cases "item_file item")
    case True
    with w show ?thesis by simp
  next
    case nofile: False
    show ?thesis
    proof (cases "item_folder item")
      case False
      with nofile w show ?thesis by simp
    next
      case folder: True
      obtain d rq1 where f: "folder_drive_id env item tok rq = (d, rq1)"
        by (cases "folder_drive_id env item tok rq")
      show ?thesis
      proof (cases d)
        case (Inl e)
        with w nofile folder f show ?thesis by simp
      next
        case (Inr drive_id)
        show ?thesis
        proof (cases "children_response env drive_id (item_id item) tok")
          case (Inl e)
          with w nofile folder f Inr show ?thesis by simp
        next
          case children: (Inr children)
          from w nofile folder f Inr children have
            "walk_children n env tok children results
               (rq1 @ [ChildrenRequest drive_id (item_id item)]) = Some r"
            by simp
          from "2.IH" [OF nofile folder f [symmetric] Inr children this]
          show ?thesis using nofile folder f Inr children by simp
        qed
      qed
    qed
  qed
next
  case (3 n env tok results rq)
  then show ?case by simp
next
  case (4 n env tok child children results rq)
  note w = "4.prems"
  show ?case
  proof (cases "walk n env tok child results rq")
    case None
    with w show ?thesis by simp
  next
    case (Some p)
    obtain r1 rq1 where p: "p = (r1, rq1)" by (cases p)
    from "4.IH"(1) Some have up: "walk (Suc n) env tok child results rq = Some p" by blast
    show ?thesis
    proof (cases r1)
      case (Inl e)
      with w Some p have "r = (Inl e, rq1)" by simp
      with up p Inl show ?thesis by (simp del: walk.simps)
    next
      case (Inr results1)
      with w Some p have "walk_children n env tok children results1 rq1 = Some r"
        by simp
      from "4.IH"(2) [OF Some [unfolded p] refl Inr this]
      show ?thesis using up p Inr by (simp del: walk.simps)
    qed
  qed
qed

lemma collect_files_are_descriptors:
  assumes "collect_files_recursively_from_item n env root tok rq = Some (Inr files, rq')"
    and "f \<in> set files"
  shows "\<exists>item. item_file item \<and> f = descriptor item"
proof -
  from assms(1) obtain its where "files = map descriptor its" "list_all item_file its"
    using walk_results(1) [of n env tok root "[]" rq files rq']
    by (auto simp: collect_files_recursively_from_item_def)
  with assms(2) show ?thesis by (auto simp: list_all_iff)
qed

lemma get_graph_token_requests:
  "get_graph_token env rq = (r, rq1) \<Longrightarrow> \<exists>more. rq1 = rq @ more \<and> list_all listing_request more"
  by (auto simp: get_graph_token_def split: if_splits)

lemma remote_listing_requests:
  assumes "remote_listing n env link rq = Some (r, rq')"
  shows "\<exists>more. rq' = rq @ more \<and> list_all listing_request more"
proof -
  obtain t rq1 where g: "get_graph_token env rq = (t, rq1)"
    by (cases "get_graph_token env rq")
  from get_graph_token_requests [OF g] obtain m1 where
    m1: "rq1 = rq @ m1" "list_all listing_request m1" by blast
  show ?thesis
  proof (cases t)
    case (Inl e)
    with assms g m1 show ?thesis by (auto simp: remote_listing_def)
  next
    case (Inr token)
    show ?thesis
    proof (cases "share_response env link token")
      case (Inl e)
      with assms g m1 Inr show ?thesis
        by (auto simp: remote_listing_def share_link_to_drive_item_meta_def)
    next
      case item: (Inr item_json)
      with assms g Inr have
        "walk n env token item_json [] (rq1 @ [ShareRequest link]) = Some (r, rq')"
        by (simp add: remote_listing_def share_link_to_drive_item_meta_def
            collect_files_recursively_from_item_def)
      from walk_requests(1) [OF this] obtain m2 where
        "rq' = (rq1 @ [ShareRequest link]) @ m2" "list_all listing_request m2" by blast
      with m1 show ?thesis by auto
    qed
  qed
qed

text \<open>
  Claim C7. The etag of the descriptor of a remote item is the item's own \<open>eTag\<close> when
  it has one (a non-empty string); otherwise it is the first 32 characters of the
  item's download URL, and the empty string when the item has no download URL
  either. A leaf file is listed as exactly this descriptor, and every descriptor of a
  listing is the descriptor of an item that is a file.
\<close>

theorem descriptor_etag_rule:
  "(truthy (item_eTag item) \<longrightarrow> fd_etag (descriptor item) = item_eTag item) \<and>
   (\<not> truthy (item_eTag item) \<longrightarrow>
      (\<forall>u. item_downloadUrl item = Some u \<longrightarrow> fd_etag (descriptor item) = Some (take 32 u))) \<and>
   (\<not> truthy (item_eTag item) \<and> item_downloadUrl item = None \<longrightarrow>
      fd_etag (descriptor item) = Some []) \<and>
   (item_file item \<longrightarrow>
      collect_files_recursively_from_item (Suc n) env item tok rq =
        Some (Inr [descriptor item], rq)) \<and>
   (\<forall>k root files rq'.
      collect_files_recursively_from_item k env root tok rq = Some (Inr files, rq') \<longrightarrow>
      (\<forall>f \<in> set files. \<exists>leaf. item_file leaf \<and> f = descriptor leaf))"
proof -
  have "\<exists>leaf. item_file leaf \<and> f = descriptor leaf"
    if "collect_files_recursively_from_item k env root tok rq = Some (Inr files, rq')"
      and "f \<in> set files" for k root files rq' f
    using that by (rule collect_files_are_descriptors)
  then show ?thesis
    by (auto simp: descriptor_def item_etag_def collect_files_recursively_from_item_def)
qed

theorem descriptor_etag_rule_witness:
  "fd_etag (descriptor (file_A ''v1'')) = Some ''v1'' \<and>
   fd_etag (descriptor ((file_A [])\<lparr>item_downloadUrl :=
      Some ''https://download.example/0123456789abcdef-token''\<rparr>))
     = Some ''https://download.example/0123456'' \<and>
   fd_etag (descriptor ((file_A [])\<lparr>item_downloadUrl := None\<rparr>)) = Some [] \<and>
   collect_files_recursively_from_item (Suc 0) (example_env ''v1'') (file_A ''v1'') ''tok'' []
     = Some (Inr [descriptor (file_A ''v1'')], [])"
proof -
  let ?long = "(file_A [])\<lparr>item_downloadUrl :=
      Some ''https://download.example/0123456789abcdef-token''\<rparr>"
  let ?none = "(file_A [])\<lparr>item_downloadUrl := None\<rparr>"
  have a: "truthy (item_eTag (file_A ''v1''))" "item_eTag (file_A ''v1'') = Some ''v1''"
    "item_file (file_A ''v1'')"
    by (simp_all add: file_A_def)
  have b: "\<not> truthy (item_eTag ?long)"
    "item_downloadUrl ?long = Some ''https://download.example/0123456789abcdef-token''"
    by (simp_all add: file_A_def)
  have c: "\<not> truthy (item_eTag ?none)" "item_downloadUrl ?none = None"
    by (simp_all add: file_A_def)
  from descriptor_etag_rule [of "file_A ''v1''" 0 "example_env ''v1''" "''tok''" "[]"] a
  have 1: "fd_etag (descriptor (file_A ''v1'')) = Some ''v1''"
    and 4: "collect_files_recursively_from_item (Suc 0) (example_env ''v1'') (file_A ''v1'') ''tok'' []
     = Some (Inr [descriptor (file_A ''v1'')], [])"
    by simp_all
  from descriptor_etag_rule [of ?long 0 "example_env ''v1''" "''tok''" "[]"] b
  have 2: "fd_etag (descriptor ?long) = Some (take 32 ''https://download.example/0123456789abcdef-token'')"
    by blast
  from descriptor_etag_rule [of ?none 0 "example_env ''v1''" "''tok''" "[]"] c
  have 3: "fd_etag (descriptor ?none) = Some []"
    by blast
  from 1 2 3 4 show ?thesis by simp
qed

section \<open>Fetching the content\<close>







section \<open>The synchronisation\<close>

lemma sync_target_Some:
  "sync_target st = Some (cache, cfg, link) \<longleftrightarrow>
     current_cache_name st = Some cache \<and> cache \<noteq> [] \<and> cfg = read_cache_config st cache \<and>
     cfg_type cfg = Some ''sharepoint'' \<and> cfg_autosync cfg = Some True \<and>
     cfg_sharepoint_link cfg = Some link \<and> link \<noteq> []"
  by (auto simp: sync_target_def Let_def split: option.splits if_splits)

lemma sync_target_enabled: "sync_target st \<noteq> None \<longleftrightarrow> autosync_enabled st"
proof
  assume "sync_target st \<noteq> None"
  then obtain cache cfg link where "sync_target st = Some (cache, cfg, link)"
    by (cases "sync_target st") auto
  then show "autosync_enabled st"
    by (auto simp: sync_target_Some autosync_enabled_def sync_preconditions_def)
next
  assume en: "autosync_enabled st"
  then obtain cache where c: "current_cache_name st = Some cache" "cache \<noteq> []"
    "sync_preconditions (read_cache_config st cache)"
    by (auto simp: autosync_enabled_def split: option.splits)
  from c(3) obtain link where "cfg_sharepoint_link (read_cache_config st cache) = Some link"
    "link \<noteq> []"
    by (cases "cfg_sharepoint_link (read_cache_config st cache)")
       (auto simp: sync_preconditions_def)
  with c have "sync_target st = Some (cache, read_cache_config st cache, link)"
    by (simp add: sync_target_Some sync_preconditions_def)
  then show "sync_target st \<noteq> None" by simp
qed

text \<open>A run that returns within a bound on the traversal returns the same within a larger one.\<close>

lemma autosync_more_fuel:
  assumes "maybe_autosync_current_cache n env st = Some st'"
  shows "maybe_autosync_current_cache (Suc n) env st = Some st'"
proof -
  have l: "remote_listing (Suc n) env link rq = Some r"
    if "remote_listing n env link rq = Some r" for link rq r
    using that
    by (auto simp: remote_listing_def collect_files_recursively_from_item_def
        simp del: walk.simps split: prod.splits sum.splits dest: walk_more_fuel(1))
  have t: "autosync_try (Suc n) env cache cfg link st = Some r"
    if "autosync_try n env cache cfg link st = Some r" for cache cfg link r
  proof (cases "remote_listing n env link (requests st)")
    case None
    with that show ?thesis by (simp add: autosync_try_def)
  next
    case (Some a)
    from l [OF this] that Some show ?thesis by (simp add: autosync_try_def)
  qed
  show ?thesis
  proof (cases "sync_target st")
    case None
    with assms show ?thesis by (simp add: maybe_autosync_current_cache_def)
  next
    case (Some x)
    obtain cache cfg link where x: "x = (cache, cfg, link)" by (cases x)
    from assms Some x obtain r where r: "autosync_try n env cache cfg link st = Some r"
      by (cases "autosync_try n env cache cfg link st")
         (auto simp: maybe_autosync_current_cache_def)
    from t [OF r] assms Some x r show ?thesis
      by (simp add: maybe_autosync_current_cache_def)
  qed
qed

text \<open>
  Claim C6. A sync attempt is started only when the active cache's config has type
  \<open>sharepoint\<close>, \<open>autosync\<close> true and a sharing link: in every other state
  \<open>maybe_autosync_current_cache\<close> returns with the state as it was, no request sent
  and no effect performed; so a run that sends a request or performs an effect
  started from a state that meets the three conditions.
\<close>

theorem no_sync_unless_enabled:
  "(\<not> autosync_enabled st \<longrightarrow> maybe_autosync_current_cache n env st = Some st) \<and>
   (\<forall>st'. maybe_autosync_current_cache n env st = Some st' \<and>
      (requests st' \<noteq> requests st \<or> effects st' \<noteq> effects st) \<longrightarrow> autosync_enabled st)"
proof -
  have a: "maybe_autosync_current_cache n env st = Some st" if "\<not> autosync_enabled st"
  proof -
    from that have "sync_target st = None"
      using sync_target_enabled [of st] by blast
    then show ?thesis by (simp add: maybe_autosync_current_cache_def)
  qed
  then show ?thesis by force
qed

theorem no_sync_unless_enabled_witness:
  "\<not> autosync_enabled autosync_off_state \<and>
   maybe_autosync_current_cache 2 (example_env ''v2'') autosync_off_state =
     Some autosync_off_state"
proof -
  have off: "\<not> autosync_enabled autosync_off_state"
    by code_simp
  with no_sync_unless_enabled [of autosync_off_state 2 "example_env ''v2''"]
  show ?thesis by simp
qed





text \<open>
  Claim C1. When a sync attempt finds the manifest of the new listing different from
  the stored one, and the download, the build, the save of the index and the write
  of the config succeed, the run performs exactly one build of the index, then saves
  the index, then writes the config, in this order, and the manifest stored in the
  config afterwards is the manifest built from the new listing.
\<close>

theorem changed_listing_rebuilds_once:
  assumes target: "sync_target st = Some (cache, cfg, link)"
    and listing: "remote_listing n env link (requests st) = Some (Inr files, rq)"
    and changed: "\<not> manifests_equal (build_manifest files) (old_manifest_of cfg)"
    and fetched: "download_and_extract_text env files rq = (Inr raw, rq')"
    and built: "build_qa_engine env raw cache = Inr (q, v)"
    and saved: "save_vectorstore env v cache = None"
    and written: "config_write env cache (cfg\<lparr>cfg_manifest := Some (build_manifest files)\<rparr>) = None"
  shows "\<exists>st'. maybe_autosync_current_cache n env st = Some st' \<and>
     effects st' = effects st @
        [BuildIndex cache, SaveIndex cache, WriteConfig cache, Toast cache] \<and>
     vectorstores st' cache = Some v \<and>
     qa st' = Some q \<and> current_cache_name st' = Some cache \<and>
     configs st' cache = Some (cfg\<lparr>cfg_manifest := Some (build_manifest files)\<rparr>) \<and>
     cfg_manifest (read_cache_config st' cache) = Some (build_manifest files)"
proof -
  let ?cfg' = "cfg\<lparr>cfg_manifest := Some (build_manifest files)\<rparr>"
  let ?st0 = "st\<lparr>requests := rq\<rparr>"
  have rb: "rebuild_vectorstore_and_save env cache raw (?st0\<lparr>requests := rq'\<rparr>) =
      (None, ?st0\<lparr>requests := rq',
                   effects := effects st @ [BuildIndex cache, SaveIndex cache],
                   vectorstores := (vectorstores st)(cache \<mapsto> v),
                   qa := Some q, current_cache_name := Some cache\<rparr>)"
    using built saved by (simp add: rebuild_vectorstore_and_save_def)
  have sc: "sync_changes env cache cfg files (build_manifest files) ?st0 =
      (None, st\<lparr>requests := rq',
                 effects := effects st @ [BuildIndex cache, SaveIndex cache,
                                          WriteConfig cache, Toast cache],
                 vectorstores := (vectorstores st)(cache \<mapsto> v),
                 qa := Some q, current_cache_name := Some cache,
                 configs := (configs st)(cache \<mapsto> ?cfg')\<rparr>)"
    using fetched rb written by (simp add: sync_changes_def write_cache_config_def)
  have "autosync_try n env cache cfg link st =
      Some (sync_changes env cache cfg files (build_manifest files) ?st0)"
    using listing changed by (simp add: autosync_try_def)
  with target sc show ?thesis
    by (simp add: maybe_autosync_current_cache_def read_cache_config_def)
qed

theorem changed_listing_rebuilds_once_witness:
  "sync_target example_state = Some (''policies'', example_config, ''https://sp/x'') \<and>
   \<not> manifests_equal (build_manifest [descriptor (file_A ''v2''), descriptor file_B])
        (old_manifest_of example_config) \<and>
   (\<exists>st'. maybe_autosync_current_cache 2 (example_env ''v2'') example_state = Some st' \<and>
      effects st' = [BuildIndex ''policies'', SaveIndex ''policies'',
                     WriteConfig ''policies'', Toast ''policies''] \<and>
      vectorstores st' ''policies'' =
        Some (''vs:'' @ ''https://dl/A'' @ blank_line @ ''https://dl/B'' @ blank_line) \<and>
      cfg_manifest (read_cache_config st' ''policies'') =
        Some (build_manifest [descriptor (file_A ''v2''), descriptor file_B]))"
proof -
  let ?files = "[descriptor (file_A ''v2''), descriptor file_B]"
  let ?rq = "[TokenRequest, ShareRequest ''https://sp/x'', ChildrenRequest ''d1'' ''R'']"
  let ?raw = "''https://dl/A'' @ blank_line @ ''https://dl/B'' @ blank_line"
  have target: "sync_target example_state = Some (''policies'', example_config, ''https://sp/x'')"
    by code_simp
  have listing: "remote_listing 2 (example_env ''v2'') ''https://sp/x'' (requests example_state)
      = Some (Inr ?files, ?rq)"
    by code_simp
  have changed: "\<not> manifests_equal (build_manifest ?files) (old_manifest_of example_config)"
    by code_simp
  have fetched: "download_and_extract_text (example_env ''v2'') ?files ?rq =
      (Inr ?raw, ?rq @ [DownloadRequest ''https://dl/A'', DownloadRequest ''https://dl/B''])"
    by code_simp
  have built: "build_qa_engine (example_env ''v2'') ?raw ''policies'' =
      Inr (''qa:'' @ ?raw, ''vs:'' @ ?raw)"
    by (simp add: example_env_def)
  have saved: "save_vectorstore (example_env ''v2'') (''vs:'' @ ?raw) ''policies'' = None"
    by (simp add: example_env_def)
  have written: "config_write (example_env ''v2'') ''policies''
      (example_config\<lparr>cfg_manifest := Some (build_manifest ?files)\<rparr>) = None"
    by (simp add: example_env_def)
  have nil: "effects example_state = []"
    by (simp add: example_state_def)
  from changed_listing_rebuilds_once [OF target listing changed fetched built saved written]
    target changed nil
  show ?thesis by auto
qed

lemma autosync_unchanged:
  assumes "sync_target st = Some (cache, cfg, link)"
    and "remote_listing n env link (requests st) = Some (Inr files, rq)"
    and "manifests_equal (build_manifest files) (old_manifest_of cfg)"
  shows "maybe_autosync_current_cache n env st = Some (st\<lparr>requests := rq\<rparr>)"
proof -
  have "autosync_try n env cache cfg link st = Some (None, st\<lparr>requests := rq\<rparr>)"
    using assms(2,3) by (simp add: autosync_try_def)
  with assms(1) show ?thesis
    by (simp add: maybe_autosync_current_cache_def)
qed

text \<open>
  Claim C4. When a sync attempt finds the manifest of the new listing equal to the
  stored one, the run changes nothing but the log of requests, to which it has added
  listing requests only: no effect is performed (no build, no save, no write of the
  config, no message), and the stored configs, the persisted indexes, the in-memory
  index and the active cache name are as before.
\<close>

theorem unchanged_listing_no_effects:
  assumes target: "sync_target st = Some (cache, cfg, link)"
    and listing: "remote_listing n env link (requests st) = Some (Inr files, rq)"
    and same: "manifests_equal (build_manifest files) (old_manifest_of cfg)"
  shows "maybe_autosync_current_cache n env st = Some (st\<lparr>requests := rq\<rparr>) \<and>
     effects (st\<lparr>requests := rq\<rparr>) = effects st \<and>
     configs (st\<lparr>requests := rq\<rparr>) = configs st \<and>
     read_cache_config (st\<lparr>requests := rq\<rparr>) cache = cfg \<and>
     vectorstores (st\<lparr>requests := rq\<rparr>) = vectorstores st \<and>
     qa (st\<lparr>requests := rq\<rparr>) = qa st \<and>
     current_cache_name (st\<lparr>requests := rq\<rparr>) = current_cache_name st \<and>
     (\<exists>more. rq = requests st @ more \<and> list_all listing_request more)"
proof -
  have "maybe_autosync_current_cache n env st = Some (st\<lparr>requests := rq\<rparr>)"
    using target listing same by (rule autosync_unchanged)
  moreover from target have "read_cache_config (st\<lparr>requests := rq\<rparr>) cache = cfg"
    by (simp add: sync_target_Some read_cache_config_def)
  moreover note remote_listing_requests [OF listing]
  ultimately show ?thesis by simp
qed

theorem unchanged_listing_no_effects_witness:
  "sync_target example_state = Some (''policies'', example_config, ''https://sp/x'') \<and>
   manifests_equal (build_manifest [descriptor (file_A ''v1''), descriptor file_B])
      (old_manifest_of example_config) \<and>
   maybe_autosync_current_cache 2 (example_env ''v1'') example_state =
     Some (example_state\<lparr>requests :=
        [TokenRequest, ShareRequest ''https://sp/x'', ChildrenRequest ''d1'' ''R'']\<rparr>)"
proof -
  let ?files = "[descriptor (file_A ''v1''), descriptor file_B]"
  let ?rq = "[TokenRequest, ShareRequest ''https://sp/x'', ChildrenRequest ''d1'' ''R'']"
  have target: "sync_target example_state = Some (''policies'', example_config, ''https://sp/x'')"
    by code_simp
  have listing: "remote_listing 2 (example_env ''v1'') ''https://sp/x'' (requests example_state)
      = Some (Inr ?files, ?rq)"
    by code_simp
  have same: "manifests_equal (build_manifest ?files) (old_manifest_of example_config)"
    by code_simp
  from unchanged_listing_no_effects [OF target listing same] target same
  show ?thesis by simp
qed

text \<open>
  Claim C10. Two descriptor lists with the same ids and the same etags, position by
  position (hence of equal length), give manifests that \<open>manifests_equal\<close> judges
  equal, whatever their names, sizes, modification times and download URLs. So a
  change of these alone never starts a re-sync: when the stored manifest was built
  from the one list and the listing now gives the other, the run changes nothing
  but the log of requests.
\<close>

theorem manifest_ignores_metadata:
  assumes ids: "map fd_id fs = map fd_id gs" and etags: "map fd_etag fs = map fd_etag gs"
  shows "manifests_equal (build_manifest fs) (build_manifest gs) \<and>
     (sync_target st = Some (cache, cfg, link) \<and> cfg_manifest cfg = Some (build_manifest fs) \<and>
      remote_listing n env link (requests st) = Some (Inr gs, rq)
      \<longrightarrow> maybe_autosync_current_cache n env st = Some (st\<lparr>requests := rq\<rparr>))"
proof -
  have eq: "manifests_equal (build_manifest fs) (build_manifest gs)"
    using ids etags by (rule same_ids_etags_manifests_equal)
  have "maybe_autosync_current_cache n env st = Some (st\<lparr>requests := rq\<rparr>)"
    if target: "sync_target st = Some (cache, cfg, link)"
      and stored: "cfg_manifest cfg = Some (build_manifest fs)"
      and listing: "remote_listing n env link (requests st) = Some (Inr gs, rq)"
  proof -
    have "manifests_equal (build_manifest gs) (build_manifest fs)"
      using ids [symmetric] etags [symmetric] by (rule same_ids_etags_manifests_equal)
    with stored have "manifests_equal (build_manifest gs) (old_manifest_of cfg)"
      by (simp add: old_manifest_of_def)
    with target listing show ?thesis by (rule autosync_unchanged)
  qed
  with eq show ?thesis by blast
qed

theorem manifest_ignores_metadata_witness:
  "map fd_id [descriptor (file_A ''v1''), descriptor file_B] =
     map fd_id [descriptor renamed_A, descriptor file_B] \<and>
   map fd_etag [descriptor (file_A ''v1''), descriptor file_B] =
     map fd_etag [descriptor renamed_A, descriptor file_B] \<and>
   fd_name (descriptor (file_A ''v1'')) \<noteq> fd_name (descriptor renamed_A) \<and>
   manifests_equal (build_manifest [descriptor (file_A ''v1''), descriptor file_B])
     (build_manifest [descriptor renamed_A, descriptor file_B]) \<and>
   maybe_autosync_current_cache 2 renamed_env example_state =
     Some (example_state\<lparr>requests :=
        [TokenRequest, ShareRequest ''https://sp/x'', ChildrenRequest ''d1'' ''R'']\<rparr>)"
proof -
  let ?fs = "[descriptor (file_A ''v1''), descriptor file_B]"
  let ?gs = "[descriptor renamed_A, descriptor file_B]"
  let ?rq = "[TokenRequest, ShareRequest ''https://sp/x'', ChildrenRequest ''d1'' ''R'']"
  have i: "map fd_id ?fs = map fd_id ?gs" by code_simp
  have e: "map fd_etag ?fs = map fd_etag ?gs" by code_simp
  have n: "fd_name (descriptor (file_A ''v1'')) \<noteq> fd_name (descriptor renamed_A)" by code_simp
  have target: "sync_target example_state = Some (''policies'', example_config, ''https://sp/x'')"
    by code_simp
  have stored: "cfg_manifest example_config = Some (build_manifest ?fs)"
    by (simp add: example_config_def)
  have listing: "remote_listing 2 renamed_env ''https://sp/x'' (requests example_state)
      = Some (Inr ?gs, ?rq)"
    by code_simp
  from manifest_ignores_metadata [OF i e, of example_state "''policies''" example_config
      "''https://sp/x''" 2 renamed_env ?rq] i e n target stored listing
  show ?thesis by simp
qed




end
